theory Spec2Isabelle
  imports Complex_Main "HOL-Library.Monad_Syntax"
begin

section \<open>Numbers\<close>

text \<open>
  The arrays of the module hold float64 values, and numpy computes on them in IEEE 754
  binary64 arithmetic: every operation returns the exact result rounded once, to the
  nearest representable value with ties to the even significand; a result of magnitude
  \<open>2^1024\<close> or more after rounding is an infinity, one below the subnormal range is
  a zero, and zeros carry a sign. A value is a finite real (\<open>Fin 0\<close> is \<open>+0\<close>), the
  zero \<open>-0\<close>, an infinity or NaN. With numpy's default error state a division by zero
  is a warning and a NaN or infinite value, not an exception.
\<close>

datatype npfloat = Fin real | NZero | PInf | NInf | NaN

definition pow2 :: "int \<Rightarrow> real" where
  "pow2 e = 2 powr of_int e"

text \<open>Rounding a real to the nearest integer, a tie to the even one.\<close>

definition rne :: "real \<Rightarrow> int" where
  "rne y =
     (let f = \<lfloor>y\<rfloor>; d = y - of_int f
      in if d < 1 / 2 then f else if 1 / 2 < d then f + 1 else if even f then f else f + 1)"

text \<open>
  Rounding a real to binary64: 53 significant bits above the exponent \<open>-1074\<close> of the
  smallest subnormal, overflow decided after rounding.
\<close>

definition round64 :: "real \<Rightarrow> npfloat" where
  "round64 x =
     (if x = 0 then Fin 0
      else
        let e = max (\<lfloor>log 2 \<bar>x\<bar>\<rfloor> - 52) (- 1074);
            m = rne (\<bar>x\<bar> / pow2 e);
            r = of_int m * pow2 e
        in if 2 ^ 1024 \<le> r then (if 0 < x then PInf else NInf)
           else if m = 0 then (if 0 < x then Fin 0 else NZero)
           else Fin (if 0 < x then r else - r))"

fun is_neg :: "npfloat \<Rightarrow> bool" where
  "is_neg (Fin x) = (x < 0)"
| "is_neg NZero = True"
| "is_neg PInf = False"
| "is_neg NInf = True"
| "is_neg NaN = False"

fun is_finite :: "npfloat \<Rightarrow> bool" where
  "is_finite (Fin x) = True"
| "is_finite NZero = True"
| "is_finite a = False"

fun is_zero :: "npfloat \<Rightarrow> bool" where
  "is_zero (Fin x) = (x = 0)"
| "is_zero NZero = True"
| "is_zero a = False"

text \<open>The real value of a finite float.\<close>

fun val :: "npfloat \<Rightarrow> real" where
  "val (Fin x) = x"
| "val a = 0"

definition zero_of :: "bool \<Rightarrow> npfloat" where
  "zero_of neg = (if neg then NZero else Fin 0)"

definition inf_of :: "bool \<Rightarrow> npfloat" where
  "inf_of neg = (if neg then NInf else PInf)"

fun fneg :: "npfloat \<Rightarrow> npfloat" where
  "fneg (Fin x) = (if x = 0 then NZero else Fin (- x))"
| "fneg NZero = Fin 0"
| "fneg PInf = NInf"
| "fneg NInf = PInf"
| "fneg NaN = NaN"

text \<open>
  An exact sum that is zero is \<open>+0\<close> unless both operands are negative; an exact
  product or quotient that is zero has the sign of its operands' signs combined.
\<close>

definition fadd :: "npfloat \<Rightarrow> npfloat \<Rightarrow> npfloat" where
  "fadd a b =
     (if a = NaN \<or> b = NaN then NaN
      else if is_finite a \<and> is_finite b then
        (let v = val a + val b
         in if v = 0 then zero_of (is_neg a \<and> is_neg b) else round64 v)
      else if is_finite a then b
      else if is_finite b then a
      else if a = b then a else NaN)"

definition fsub :: "npfloat \<Rightarrow> npfloat \<Rightarrow> npfloat" where
  "fsub a b = fadd a (fneg b)"

definition fmul :: "npfloat \<Rightarrow> npfloat \<Rightarrow> npfloat" where
  "fmul a b =
     (if a = NaN \<or> b = NaN then NaN
      else if is_finite a \<and> is_finite b then
        (let v = val a * val b
         in if v = 0 then zero_of (is_neg a \<noteq> is_neg b) else round64 v)
      else if (is_finite a \<and> val a = 0) \<or> (is_finite b \<and> val b = 0) then NaN
      else inf_of (is_neg a \<noteq> is_neg b))"

definition fdiv :: "npfloat \<Rightarrow> npfloat \<Rightarrow> npfloat" where
  "fdiv a b =
     (if a = NaN \<or> b = NaN then NaN
      else if is_finite a \<and> is_finite b then
        (if val b = 0 then
           (if val a = 0 then NaN else inf_of (is_neg a \<noteq> is_neg b))
         else
           (let v = val a / val b
            in if v = 0 then zero_of (is_neg a \<noteq> is_neg b) else round64 v))
      else if is_finite a then zero_of (is_neg a \<noteq> is_neg b)
      else if is_finite b then inf_of (is_neg a \<noteq> is_neg b)
      else NaN)"

fun fsqrt :: "npfloat \<Rightarrow> npfloat" where
  "fsqrt (Fin x) = (if x < 0 then NaN else if x = 0 then Fin 0 else round64 (sqrt x))"
| "fsqrt NZero = NZero"
| "fsqrt PInf = PInf"
| "fsqrt NInf = NaN"
| "fsqrt NaN = NaN"

section \<open>Arrays\<close>

text \<open>
  The three landmarks are arrays of shape (3,), \<open>np.vstack\<close> of three of them is an
  array of shape (3,3), and the result is the (4,4) array that starts as \<open>np.eye(4)\<close>.
\<close>

type_synonym v3 = "npfloat \<times> npfloat \<times> npfloat"
type_synonym m33 = "v3 \<times> v3 \<times> v3"
type_synonym mat = "npfloat list list"

fun vsub :: "v3 \<Rightarrow> v3 \<Rightarrow> v3" where
  "vsub (a0, a1, a2) (b0, b1, b2) = (fsub a0 b0, fsub a1 b1, fsub a2 b2)"

fun vneg :: "v3 \<Rightarrow> v3" where
  "vneg (a0, a1, a2) = (fneg a0, fneg a1, fneg a2)"

text \<open>
  \<open>v / s\<close> and \<open>np.dot(v, s)\<close> for a scalar \<open>s\<close>: elementwise. A dot product
  multiplies elementwise and adds from left to right, every operation rounded.
\<close>

fun vdivs :: "v3 \<Rightarrow> npfloat \<Rightarrow> v3" where
  "vdivs (a0, a1, a2) s = (fdiv a0 s, fdiv a1 s, fdiv a2 s)"

fun vmuls :: "v3 \<Rightarrow> npfloat \<Rightarrow> v3" where
  "vmuls (a0, a1, a2) s = (fmul a0 s, fmul a1 s, fmul a2 s)"

fun vdot :: "v3 \<Rightarrow> v3 \<Rightarrow> npfloat" where
  "vdot (a0, a1, a2) (b0, b1, b2) = fadd (fadd (fmul a0 b0) (fmul a1 b1)) (fmul a2 b2)"

text \<open>\<open>np.linalg.norm\<close> of a vector: the square root of its dot product with itself.\<close>

definition linalg_norm :: "v3 \<Rightarrow> npfloat" where
  "linalg_norm v = fsqrt (vdot v v)"

fun cross :: "v3 \<Rightarrow> v3 \<Rightarrow> v3" where
  "cross (a0, a1, a2) (b0, b1, b2) =
     (fsub (fmul a1 b2) (fmul a2 b1),
      fsub (fmul a2 b0) (fmul a0 b2),
      fsub (fmul a0 b1) (fmul a1 b0))"

definition vstack :: "v3 \<Rightarrow> v3 \<Rightarrow> v3 \<Rightarrow> m33" where
  "vstack r0 r1 r2 = (r0, r1, r2)"

text \<open>\<open>np.dot(rotation, v)\<close>: the matrix-vector product.\<close>

fun matvec :: "m33 \<Rightarrow> v3 \<Rightarrow> v3" where
  "matvec (r0, r1, r2) v = (vdot r0 v, vdot r1 v, vdot r2 v)"

definition eye :: "nat \<Rightarrow> mat" where
  "eye n = map (\<lambda>i. map (\<lambda>j. if i = j then Fin 1 else Fin 0) [0..<n]) [0..<n]"

text \<open>\<open>matrix[:3, :3] = rotation\<close> and \<open>matrix[:3, 3] = translation\<close>.\<close>

fun set_rotation :: "mat \<Rightarrow> m33 \<Rightarrow> mat" where
  "set_rotation m ((a0, a1, a2), (b0, b1, b2), (c0, c1, c2)) =
     m[0 := (m ! 0)[0 := a0, 1 := a1, 2 := a2],
       1 := (m ! 1)[0 := b0, 1 := b1, 2 := b2],
       2 := (m ! 2)[0 := c0, 1 := c1, 2 := c2]]"

fun set_translation :: "mat \<Rightarrow> v3 \<Rightarrow> mat" where
  "set_translation m (t0, t1, t2) =
     m[0 := (m ! 0)[3 := t0], 1 := (m ! 1)[3 := t1], 2 := (m ! 2)[3 := t2]]"

section \<open>getMatrixToACPC\<close>

text \<open>
  The function, line by line. It has no check and no \<open>raise\<close>: with numpy's default
  error state a division by zero is a warning and a NaN or infinite entry, so the
  function returns a matrix for every three vectors.
\<close>

definition getMatrixToACPC :: "v3 \<Rightarrow> v3 \<Rightarrow> v3 \<Rightarrow> mat" where
  "getMatrixToACPC ac pc ih =
     (let pcAc = vsub ac pc;
          yAxis = vdivs pcAc (linalg_norm pcAc);
          acIhDir = vsub ih ac;
          xAxis = cross yAxis acIhDir;
          xAxis = vdivs xAxis (linalg_norm xAxis);
          zAxis = cross xAxis yAxis;
          rotation = vstack xAxis yAxis zAxis;
          translation =
            vneg (matvec rotation
              (vsub ac (vmuls yAxis (fmul (Fin 0.5) (linalg_norm pcAc)))));
          matrix = eye 4;
          matrix = set_rotation matrix rotation;
          matrix = set_translation matrix translation
      in matrix)"

section \<open>getMatrixToACPC on a store of arrays\<close>

text \<open>
  The same function with the arrays as objects in a store, to state what it mutates.
  Every numpy operation of the body allocates its result, but for the three in-place
  ones: \<open>xAxis /= np.linalg.norm(xAxis)\<close>, \<open>matrix[:3, :3] = rotation\<close> and
  \<open>matrix[:3, 3] = translation\<close>. \<open>np.linalg.norm\<close> returns a scalar. An operation
  on an address that holds no array of the shape it needs is \<open>None\<close>.
\<close>

datatype ndarray = Arr1 v3 | Arr2 m33 | Arr4 mat

record store =
  heap :: "nat \<Rightarrow> ndarray option"
  next_addr :: nat

definition alloc :: "ndarray \<Rightarrow> store \<Rightarrow> nat \<times> store" where
  "alloc v s =
     (next_addr s, s\<lparr>heap := (heap s)(next_addr s \<mapsto> v), next_addr := Suc (next_addr s)\<rparr>)"

definition overwrite :: "nat \<Rightarrow> ndarray \<Rightarrow> store \<Rightarrow> store" where
  "overwrite a v s = s\<lparr>heap := (heap s)(a \<mapsto> v)\<rparr>"

definition read1 :: "store \<Rightarrow> nat \<Rightarrow> v3 option" where
  "read1 s a = (case heap s a of Some (Arr1 v) \<Rightarrow> Some v | _ \<Rightarrow> None)"

definition read2 :: "store \<Rightarrow> nat \<Rightarrow> m33 option" where
  "read2 s a = (case heap s a of Some (Arr2 r) \<Rightarrow> Some r | _ \<Rightarrow> None)"

definition read4 :: "store \<Rightarrow> nat \<Rightarrow> mat option" where
  "read4 s a = (case heap s a of Some (Arr4 m) \<Rightarrow> Some m | _ \<Rightarrow> None)"

definition np_subtract :: "nat \<Rightarrow> nat \<Rightarrow> store \<Rightarrow> (nat \<times> store) option" where
  "np_subtract a b s =
     do { x \<leftarrow> read1 s a; y \<leftarrow> read1 s b; Some (alloc (Arr1 (vsub x y)) s) }"

definition np_linalg_norm :: "nat \<Rightarrow> store \<Rightarrow> npfloat option" where
  "np_linalg_norm a s = do { x \<leftarrow> read1 s a; Some (linalg_norm x) }"

definition np_divide :: "nat \<Rightarrow> npfloat \<Rightarrow> store \<Rightarrow> (nat \<times> store) option" where
  "np_divide a k s = do { x \<leftarrow> read1 s a; Some (alloc (Arr1 (vdivs x k)) s) }"

definition np_idivide :: "nat \<Rightarrow> npfloat \<Rightarrow> store \<Rightarrow> store option" where
  "np_idivide a k s = do { x \<leftarrow> read1 s a; Some (overwrite a (Arr1 (vdivs x k)) s) }"

definition np_cross :: "nat \<Rightarrow> nat \<Rightarrow> store \<Rightarrow> (nat \<times> store) option" where
  "np_cross a b s =
     do { x \<leftarrow> read1 s a; y \<leftarrow> read1 s b; Some (alloc (Arr1 (cross x y)) s) }"

definition np_vstack :: "nat \<Rightarrow> nat \<Rightarrow> nat \<Rightarrow> store \<Rightarrow> (nat \<times> store) option" where
  "np_vstack a b c s =
     do { x \<leftarrow> read1 s a; y \<leftarrow> read1 s b; z \<leftarrow> read1 s c;
          Some (alloc (Arr2 (vstack x y z)) s) }"

definition np_dot_scalar :: "nat \<Rightarrow> npfloat \<Rightarrow> store \<Rightarrow> (nat \<times> store) option" where
  "np_dot_scalar a k s = do { x \<leftarrow> read1 s a; Some (alloc (Arr1 (vmuls x k)) s) }"

definition np_dot :: "nat \<Rightarrow> nat \<Rightarrow> store \<Rightarrow> (nat \<times> store) option" where
  "np_dot r a s =
     do { m \<leftarrow> read2 s r; x \<leftarrow> read1 s a; Some (alloc (Arr1 (matvec m x)) s) }"

definition np_negative :: "nat \<Rightarrow> store \<Rightarrow> (nat \<times> store) option" where
  "np_negative a s = do { x \<leftarrow> read1 s a; Some (alloc (Arr1 (vneg x)) s) }"

definition np_eye :: "nat \<Rightarrow> store \<Rightarrow> (nat \<times> store) option" where
  "np_eye n s = Some (alloc (Arr4 (eye n)) s)"

definition setitem_rotation :: "nat \<Rightarrow> nat \<Rightarrow> store \<Rightarrow> store option" where
  "setitem_rotation m r s =
     do { x \<leftarrow> read4 s m; y \<leftarrow> read2 s r; Some (overwrite m (Arr4 (set_rotation x y)) s) }"

definition setitem_translation :: "nat \<Rightarrow> nat \<Rightarrow> store \<Rightarrow> store option" where
  "setitem_translation m t s =
     do { x \<leftarrow> read4 s m; y \<leftarrow> read1 s t;
          Some (overwrite m (Arr4 (set_translation x y)) s) }"

definition getMatrixToACPC_st :: "nat \<Rightarrow> nat \<Rightarrow> nat \<Rightarrow> store \<Rightarrow> (nat \<times> store) option" where
  "getMatrixToACPC_st ac pc ih s =
     do { (pcAc, s) \<leftarrow> np_subtract ac pc s;
          n \<leftarrow> np_linalg_norm pcAc s;
          (yAxis, s) \<leftarrow> np_divide pcAc n s;
          (acIhDir, s) \<leftarrow> np_subtract ih ac s;
          (xAxis, s) \<leftarrow> np_cross yAxis acIhDir s;
          n \<leftarrow> np_linalg_norm xAxis s;
          s \<leftarrow> np_idivide xAxis n s;
          (zAxis, s) \<leftarrow> np_cross xAxis yAxis s;
          (rotation, s) \<leftarrow> np_vstack xAxis yAxis zAxis s;
          n \<leftarrow> np_linalg_norm pcAc s;
          (scaled, s) \<leftarrow> np_dot_scalar yAxis (fmul (Fin 0.5) n) s;
          (offset, s) \<leftarrow> np_subtract ac scaled s;
          (rotated, s) \<leftarrow> np_dot rotation offset s;
          (translation, s) \<leftarrow> np_negative rotated s;
          (matrix, s) \<leftarrow> np_eye 4 s;
          s \<leftarrow> setitem_rotation matrix rotation s;
          s \<leftarrow> setitem_translation matrix translation s;
          Some (matrix, s) }"

text \<open>In a well-formed store every allocated address is below the next free one.\<close>

definition wf_store :: "store \<Rightarrow> bool" where
  "wf_store s \<longleftrightarrow> (\<forall>a. heap s a \<noteq> None \<longrightarrow> a < next_addr s)"

section \<open>myLogic.run\<close>

text \<open>
  \<open>run\<close> reads the positions of the markup node \<open>acpcFid\<close> (a list of points here),
  binds \<open>ac\<close>, \<open>pc\<close> and \<open>ih\<close> in the iterations 0, 1 and 2 of its loop, and calls
  \<open>getMatrixToACPC(ac, pc, ih)\<close>: a name the loop never bound is Python's
  UnboundLocalError, raised as the arguments are evaluated from left to right. The
  matrix is copied entry by entry into a \<open>vtkMatrix4x4\<close> (the identity when created)
  and handed to the host application; the calls made on the host's nodes are the
  result.
\<close>

datatype py_error = UnboundLocalError string

datatype host_call =
    SetAndObserveMatrixTransformToParent mat
  | SetAndObserveTransformNodeID_acpcFid
  | SetAndObserveTransformNodeID_volumeNode
  | hardenTransform_acpcFid
  | hardenTransform_volumeNode

record run_locals =
  local_ac :: "v3 option"
  local_pc :: "v3 option"
  local_ih :: "v3 option"

definition loop_body :: "v3 list \<Rightarrow> nat \<Rightarrow> run_locals \<Rightarrow> run_locals" where
  "loop_body acpcFid i l =
     (let ras = acpcFid ! i;
          l = (if i = 0 then l\<lparr>local_ac := Some ras\<rparr> else l);
          l = (if i = 1 then l\<lparr>local_pc := Some ras\<rparr> else l);
          l = (if i = 2 then l\<lparr>local_ih := Some ras\<rparr> else l)
      in l)"

definition to_vtkMatrix :: "mat \<Rightarrow> mat" where
  "to_vtkMatrix matrix =
     fold (\<lambda>row vtkMatrix.
       fold (\<lambda>col vtkMatrix.
         vtkMatrix[row := (vtkMatrix ! row)[col := matrix ! row ! col]]) [0..<4] vtkMatrix)
       [0..<4] (eye 4)"

definition run :: "v3 list \<Rightarrow> bool \<Rightarrow> py_error + host_call list" where
  "run acpcFid autoHarden =
     (let l = fold (loop_body acpcFid) [0..<length acpcFid]
                \<lparr>local_ac = None, local_pc = None, local_ih = None\<rparr>
      in case local_ac l of
           None \<Rightarrow> Inl (UnboundLocalError ''ac'')
         | Some ac \<Rightarrow>
             (case local_pc l of
                None \<Rightarrow> Inl (UnboundLocalError ''pc'')
              | Some pc \<Rightarrow>
                  (case local_ih l of
                     None \<Rightarrow> Inl (UnboundLocalError ''ih'')
                   | Some ih \<Rightarrow>
                       (let matrix = getMatrixToACPC ac pc ih;
                            vtkMatrix = to_vtkMatrix matrix
                        in Inr ([SetAndObserveMatrixTransformToParent vtkMatrix,
                                 SetAndObserveTransformNodeID_acpcFid,
                                 SetAndObserveTransformNodeID_volumeNode] @
                                (if autoHarden
                                 then [hardenTransform_acpcFid, hardenTransform_volumeNode]
                                 else []))))))"

section \<open>Landmarks with finite coordinates\<close>

text \<open>
  A landmark with finite coordinates is a triple of reals, \<open>fv\<close> of it the array that
  holds them; the coordinates an array can hold are the representable ones. The
  operations below are vector algebra on reals, with no rounding; \<open>midpoint\<close> is the
  mid-commissural point \<open>(ac + pc) / 2\<close>.
\<close>

type_synonym rvec = "real \<times> real \<times> real"

fun fv :: "rvec \<Rightarrow> v3" where
  "fv (a0, a1, a2) = (Fin a0, Fin a1, Fin a2)"

definition representable :: "real \<Rightarrow> bool" where
  "representable x \<longleftrightarrow>
     (\<exists>m e. \<bar>m\<bar> < 2 ^ 53 \<and> - 1074 \<le> e \<and> e \<le> 971 \<and> x = of_int m * pow2 e)"

fun float64_input :: "rvec \<Rightarrow> bool" where
  "float64_input (a0, a1, a2) \<longleftrightarrow> representable a0 \<and> representable a1 \<and> representable a2"

fun radd :: "rvec \<Rightarrow> rvec \<Rightarrow> rvec" where
  "radd (a0, a1, a2) (b0, b1, b2) = (a0 + b0, a1 + b1, a2 + b2)"

fun rsub :: "rvec \<Rightarrow> rvec \<Rightarrow> rvec" where
  "rsub (a0, a1, a2) (b0, b1, b2) = (a0 - b0, a1 - b1, a2 - b2)"

fun rneg :: "rvec \<Rightarrow> rvec" where
  "rneg (a0, a1, a2) = (- a0, - a1, - a2)"

fun rdivs :: "rvec \<Rightarrow> real \<Rightarrow> rvec" where
  "rdivs (a0, a1, a2) s = (a0 / s, a1 / s, a2 / s)"

fun rmuls :: "rvec \<Rightarrow> real \<Rightarrow> rvec" where
  "rmuls (a0, a1, a2) s = (a0 * s, a1 * s, a2 * s)"

fun rdot :: "rvec \<Rightarrow> rvec \<Rightarrow> real" where
  "rdot (a0, a1, a2) (b0, b1, b2) = a0 * b0 + a1 * b1 + a2 * b2"

definition rnorm :: "rvec \<Rightarrow> real" where
  "rnorm v = sqrt (rdot v v)"

fun rcross :: "rvec \<Rightarrow> rvec \<Rightarrow> rvec" where
  "rcross (a0, a1, a2) (b0, b1, b2) =
     (a1 * b2 - a2 * b1, a2 * b0 - a0 * b2, a0 * b1 - a1 * b0)"

fun rmatvec :: "rvec \<times> rvec \<times> rvec \<Rightarrow> rvec \<Rightarrow> rvec" where
  "rmatvec (r0, r1, r2) v = (rdot r0 v, rdot r1 v, rdot r2 v)"


fun midpoint :: "rvec \<Rightarrow> rvec \<Rightarrow> rvec" where
  "midpoint (a0, a1, a2) (b0, b1, b2) = ((a0 + b0) / 2, (a1 + b1) / 2, (a2 + b2) / 2)"

text \<open>
  The input is non-degenerate when \<open>ac\<close> and \<open>pc\<close> differ and \<open>ih\<close> is not on the
  line through them: the cross product of \<open>ac - pc\<close> and \<open>ih - ac\<close> is not zero
  (\<open>nondegenerate_iff\<close> below: no \<open>k\<close> has \<open>ih = ac + k * (ac - pc)\<close>).
\<close>

definition nondegenerate :: "rvec \<Rightarrow> rvec \<Rightarrow> rvec \<Rightarrow> bool" where
  "nondegenerate ac pc ih \<longleftrightarrow> ac \<noteq> pc \<and> rcross (rsub ac pc) (rsub ih ac) \<noteq> (0, 0, 0)"

text \<open>
  What the formulas of the body give in real arithmetic, with no rounding: the three
  axes and the translation.
\<close>

definition yAxisR :: "rvec \<Rightarrow> rvec \<Rightarrow> rvec" where
  "yAxisR ac pc = rdivs (rsub ac pc) (rnorm (rsub ac pc))"

definition xAxisR :: "rvec \<Rightarrow> rvec \<Rightarrow> rvec \<Rightarrow> rvec" where
  "xAxisR ac pc ih =
     (let c = rcross (yAxisR ac pc) (rsub ih ac) in rdivs c (rnorm c))"

definition zAxisR :: "rvec \<Rightarrow> rvec \<Rightarrow> rvec \<Rightarrow> rvec" where
  "zAxisR ac pc ih = rcross (xAxisR ac pc ih) (yAxisR ac pc)"

definition translationR :: "rvec \<Rightarrow> rvec \<Rightarrow> rvec \<Rightarrow> rvec" where
  "translationR ac pc ih =
     rneg (rmatvec (xAxisR ac pc ih, yAxisR ac pc, zAxisR ac pc ih)
       (rsub ac (rmuls (yAxisR ac pc) (0.5 * rnorm (rsub ac pc)))))"

section \<open>Reading the returned matrix\<close>

text \<open>
  Row \<open>i\<close> of the rotation block \<open>matrix[:3, :3]\<close>, the block, the translation
  column \<open>matrix[:3, 3]\<close>, and the image of a point under the transform computed in
  float64 as the matrix times \<open>(p, 1)\<close>. Row 1 is the anteroposterior axis.
\<close>

definition rotRow :: "mat \<Rightarrow> nat \<Rightarrow> v3" where
  "rotRow m i = (m ! i ! 0, m ! i ! 1, m ! i ! 2)"

definition rotationOf :: "mat \<Rightarrow> m33" where
  "rotationOf m = (rotRow m 0, rotRow m 1, rotRow m 2)"

definition translationOf :: "mat \<Rightarrow> v3" where
  "translationOf m = (m ! 0 ! 3, m ! 1 ! 3, m ! 2 ! 3)"

fun vadd :: "v3 \<Rightarrow> v3 \<Rightarrow> v3" where
  "vadd (a0, a1, a2) (b0, b1, b2) = (fadd a0 b0, fadd a1 b1, fadd a2 b2)"

definition applyTransform :: "mat \<Rightarrow> v3 \<Rightarrow> v3" where
  "applyTransform m p = vadd (matvec (rotationOf m) p) (vmuls (translationOf m) (Fin 1))"

text \<open>
  The same read as mathematics: the real values of a row and of the translation column,
  whether the twelve entries of the first three rows are all finite, and, when they
  are, the image of a real point under the affine map they define, with no rounding.
  A matrix with a NaN or infinite entry there defines no map.
\<close>

fun vals :: "v3 \<Rightarrow> rvec" where
  "vals (a0, a1, a2) = (val a0, val a1, val a2)"

definition rowR :: "mat \<Rightarrow> nat \<Rightarrow> rvec" where
  "rowR m i = vals (rotRow m i)"

definition transR :: "mat \<Rightarrow> rvec" where
  "transR m = vals (translationOf m)"

definition finite_top :: "mat \<Rightarrow> bool" where
  "finite_top m \<longleftrightarrow> list_all (list_all is_finite) (take 3 m)"


text \<open>
  The float64 computation is exact on an input when the inputs are float64 values and
  the matrix it returns holds, in its first three rows, the values that real arithmetic
  gives: no rounding error is left in the result.
\<close>

definition computed_exactly :: "rvec \<Rightarrow> rvec \<Rightarrow> rvec \<Rightarrow> bool" where
  "computed_exactly ac pc ih \<longleftrightarrow>
     float64_input ac \<and> float64_input pc \<and> float64_input ih \<and>
     (let m = getMatrixToACPC (fv ac) (fv pc) (fv ih)
      in finite_top m \<and>
         rowR m 0 = xAxisR ac pc ih \<and> rowR m 1 = yAxisR ac pc \<and>
         rowR m 2 = zAxisR ac pc ih \<and> transR m = translationR ac pc ih)"

text \<open>Two floats have the same value: equal, the two zeros taken as one.\<close>

fun num :: "npfloat \<Rightarrow> npfloat" where
  "num NZero = Fin 0"
| "num a = a"

fun same_values :: "v3 \<Rightarrow> v3 \<Rightarrow> bool" where
  "same_values (a0, a1, a2) (b0, b1, b2) \<longleftrightarrow> num a0 = num b0 \<and> num a1 = num b1 \<and> num a2 = num b2"

section \<open>Rounding\<close>

lemma pow2_pos: "0 < pow2 e"
  by (simp add: pow2_def)

lemma pow2_add: "pow2 (a + b) = pow2 a * pow2 b"
  by (simp add: pow2_def powr_add)

lemma pow2_nat: "pow2 (int n) = 2 ^ n"
  by (simp add: pow2_def powr_realpow)

lemma pow2_0: "pow2 0 = 1"
  by (simp add: pow2_def)

lemma pow2_less_iff: "pow2 a < pow2 b \<longleftrightarrow> a < b"
  by (simp add: pow2_def)

lemma pow2_le_iff: "pow2 a \<le> pow2 b \<longleftrightarrow> a \<le> b"
  by (simp add: pow2_def)

lemma pow2_neg_nat: "pow2 (- int n) = 1 / 2 ^ n"
  using pow2_add [of "- int n" "int n"] by (simp add: pow2_nat pow2_0 field_simps)

lemma floor_log2: "0 < x \<Longrightarrow> pow2 \<lfloor>log 2 x\<rfloor> \<le> x \<and> x < pow2 (\<lfloor>log 2 x\<rfloor> + 1)"
  using floor_log_eq_powr_iff [of x 2 "\<lfloor>log 2 x\<rfloor>"] by (simp add: pow2_def)

lemma rne_of_int: "rne (of_int n) = n"
  by (simp add: rne_def)

lemma rne_ge: "of_int n \<le> y \<Longrightarrow> n \<le> rne y"
  by (auto simp: rne_def Let_def le_floor_iff) linarith+

lemma rne_small: "0 \<le> y \<Longrightarrow> y \<le> 1 / 2 \<Longrightarrow> rne y = 0"
proof -
  assume y: "0 \<le> y" "y \<le> 1 / 2"
  then have "\<lfloor>y\<rfloor> = 0"
    by (simp add: floor_eq_iff)
  with y show ?thesis
    by (simp add: rne_def)
qed

text \<open>A representable value rounds to itself.\<close>

lemma round64_representable:
  assumes "representable x"
  shows "round64 x = Fin x"
proof (cases "x = 0")
  case True
  then show ?thesis by (simp add: round64_def)
next
  case False
  from assms obtain m e where m: "\<bar>m\<bar> < 2 ^ 53" and e: "- 1074 \<le> e" "e \<le> 971"
    and x: "x = of_int m * pow2 e"
    by (auto simp: representable_def)
  have m0: "m \<noteq> 0"
    using False x by auto
  have ax: "\<bar>x\<bar> = of_int \<bar>m\<bar> * pow2 e"
    using pow2_pos [of e] by (simp add: x abs_mult)
  define L where "L = \<lfloor>log 2 \<bar>x\<bar>\<rfloor>"
  have xpos: "0 < \<bar>x\<bar>"
    using False by simp
  have L: "pow2 L \<le> \<bar>x\<bar>"
    using floor_log2 [OF xpos] by (simp add: L_def)
  have "real_of_int \<bar>m\<bar> < 2 ^ 53"
    using m by (metis of_int_less_iff of_int_numeral of_int_power)
  then have "\<bar>x\<bar> < 2 ^ 53 * pow2 e"
    unfolding ax using pow2_pos [of e] by simp
  also have "\<dots> = pow2 (53 + e)"
    using pow2_nat [of 53] by (simp add: pow2_add)
  finally have lt: "\<bar>x\<bar> < pow2 (53 + e)" .
  then have "pow2 L < pow2 (53 + e)"
    using L by linarith
  then have Le: "L - 52 \<le> e"
    by (simp add: pow2_less_iff)
  define q where "q = max (L - 52) (- 1074)"
  have qe: "q \<le> e"
    using Le e by (simp add: q_def)
  have split: "pow2 e = 2 ^ nat (e - q) * pow2 q"
  proof -
    have "e = int (nat (e - q)) + q"
      using qe by simp
    then have "pow2 e = pow2 (int (nat (e - q))) * pow2 q"
      by (metis pow2_add)
    then show ?thesis
      by (simp only: pow2_nat)
  qed
  have quot: "\<bar>x\<bar> / pow2 q = of_int (\<bar>m\<bar> * 2 ^ nat (e - q))"
    using pow2_pos [of q] by (simp add: ax split)
  define k where "k = rne (\<bar>x\<bar> / pow2 q)"
  have r: "of_int k * pow2 q = \<bar>x\<bar>"
    unfolding k_def quot rne_of_int by (simp add: ax split)
  have nz: "k \<noteq> 0"
    unfolding k_def quot rne_of_int using m0 by simp
  have "pow2 (53 + e) \<le> pow2 1024"
    using e by (simp add: pow2_le_iff)
  also have "pow2 1024 = 2 ^ 1024"
    using pow2_nat [of 1024] by simp
  finally have small: "\<not> 2 ^ 1024 \<le> \<bar>x\<bar>"
    using lt by simp
  show ?thesis
    unfolding round64_def Let_def L_def [symmetric] q_def [symmetric] k_def [symmetric] r
    using False small nz by auto
qed

text \<open>Overflow: a magnitude of \<open>2^1024\<close> or more rounds to an infinity.\<close>

lemma round64_overflow:
  assumes "2 ^ 1024 \<le> \<bar>x\<bar>"
  shows "round64 x = (if 0 < x then PInf else NInf)"
proof -
  have x0: "x \<noteq> 0"
    using assms by auto
  have xpos: "0 < \<bar>x\<bar>"
    using x0 by simp
  define L where "L = \<lfloor>log 2 \<bar>x\<bar>\<rfloor>"
  have L: "pow2 L \<le> \<bar>x\<bar>" "\<bar>x\<bar> < pow2 (L + 1)"
    using floor_log2 [OF xpos] by (simp_all add: L_def)
  have "pow2 1024 \<le> \<bar>x\<bar>"
    using assms pow2_nat [of 1024] by simp
  then have "pow2 1024 < pow2 (L + 1)"
    using L(2) by linarith
  then have L1024: "1024 \<le> L"
    by (simp add: pow2_less_iff)
  define q where "q = max (L - 52) (- 1074)"
  have q: "q = L - 52"
    using L1024 by (simp add: q_def)
  have LL: "pow2 L = pow2 52 * pow2 q"
    unfolding q by (metis pow2_add add.commute diff_add_cancel)
  then have "of_int (2 ^ 52) \<le> \<bar>x\<bar> / pow2 q"
    using L(1) pow2_pos [of q] pow2_nat [of 52] by (simp add: pos_le_divide_eq)
  then have "2 ^ 52 \<le> rne (\<bar>x\<bar> / pow2 q)"
    by (rule rne_ge)
  then have "real_of_int (2 ^ 52) \<le> of_int (rne (\<bar>x\<bar> / pow2 q))"
    by (simp only: of_int_le_iff)
  then have "pow2 52 * pow2 q \<le> of_int (rne (\<bar>x\<bar> / pow2 q)) * pow2 q"
    using pow2_pos [of q] pow2_nat [of 52] by simp
  then have "pow2 L \<le> of_int (rne (\<bar>x\<bar> / pow2 q)) * pow2 q"
    using LL by simp
  moreover have "pow2 1024 \<le> pow2 L"
    using L1024 by (simp add: pow2_le_iff)
  ultimately have "2 ^ 1024 \<le> of_int (rne (\<bar>x\<bar> / pow2 q)) * pow2 q"
    using pow2_nat [of 1024] by simp
  then show ?thesis
    unfolding round64_def Let_def L_def [symmetric] q_def [symmetric]
    using x0 by simp
qed

text \<open>Underflow: a magnitude of at most half the smallest subnormal rounds to a zero.\<close>

lemma round64_underflow:
  assumes "x \<noteq> 0" and "\<bar>x\<bar> \<le> pow2 (- 1075)"
  shows "round64 x = (if 0 < x then Fin 0 else NZero)"
proof -
  have xpos: "0 < \<bar>x\<bar>"
    using assms(1) by simp
  define L where "L = \<lfloor>log 2 \<bar>x\<bar>\<rfloor>"
  have "pow2 L \<le> \<bar>x\<bar>"
    using floor_log2 [OF xpos] by (simp add: L_def)
  then have "pow2 L \<le> pow2 (- 1075)"
    using assms(2) by linarith
  then have "L \<le> - 1075"
    by (simp add: pow2_le_iff)
  then have q: "max (L - 52) (- 1074) = - 1074"
    by simp
  have "pow2 (- 1074) = 2 * pow2 (- 1075)"
    using pow2_add [of 1 "- 1075"] pow2_nat [of 1] by simp
  then have "\<bar>x\<bar> / pow2 (- 1074) \<le> 1 / 2"
    using assms(2) pow2_pos [of "- 1075"] by (simp add: field_simps)
  moreover have "0 \<le> \<bar>x\<bar> / pow2 (- 1074)"
    using pow2_pos [of "- 1074"] by simp
  ultimately have "rne (\<bar>x\<bar> / pow2 (- 1074)) = 0"
    by (intro rne_small)
  then show ?thesis
    unfolding round64_def Let_def L_def [symmetric] q
    using assms(1) by simp
qed

text \<open>Rounding is symmetric.\<close>

lemma round64_minus: "x \<noteq> 0 \<Longrightarrow> round64 (- x) = fneg (round64 x)"
  using pow2_pos [of "max (\<lfloor>log 2 \<bar>x\<bar>\<rfloor> - 52) (- 1074)"]
  by (auto simp: round64_def Let_def zero_less_mult_iff)

lemma representable_of_int: "\<bar>n\<bar> < 2 ^ 53 \<Longrightarrow> representable (of_int n)"
  unfolding representable_def
  by (rule exI [of _ n], rule exI [of _ 0]) (simp add: pow2_0)

lemma representable_0: "representable 0"
  using representable_of_int [of 0] by simp

lemma representable_1: "representable 1"
  using representable_of_int [of 1] by simp

lemma representable_numeral: "numeral k < (2::int) ^ 53 \<Longrightarrow> representable (numeral k)"
  using representable_of_int [of "numeral k"] by simp

lemma representable_neg_numeral:
  "numeral k < (2::int) ^ 53 \<Longrightarrow> representable (- numeral k)"
  using representable_of_int [of "- numeral k"] by simp

lemma representable_half: "representable (1 / 2)"
  unfolding representable_def
  by (rule exI [of _ 1], rule exI [of _ "- 1"]) (use pow2_neg_nat [of 1] in simp)

lemma representable_neg_half: "representable (- (1 / 2))"
  unfolding representable_def
  by (rule exI [of _ "- 1"], rule exI [of _ "- 1"]) (use pow2_neg_nat [of 1] in simp)

lemmas representable_simps =
  representable_0 representable_1 representable_numeral representable_neg_numeral
  representable_half representable_neg_half

lemma round64_numeral:
  "numeral k < (2::int) ^ 53 \<Longrightarrow> round64 (numeral k) = Fin (numeral k)"
  by (rule round64_representable [OF representable_numeral])

lemma round64_neg_numeral:
  "numeral k < (2::int) ^ 53 \<Longrightarrow> round64 (- numeral k) = Fin (- numeral k)"
  by (rule round64_representable [OF representable_neg_numeral])

lemma round64_1: "round64 1 = Fin 1"
  by (rule round64_representable [OF representable_1])

lemma round64_half: "round64 (1 / 2) = Fin (1 / 2)"
  by (rule round64_representable [OF representable_half])

lemma round64_neg_half: "round64 (- (1 / 2)) = Fin (- (1 / 2))"
  by (rule round64_representable [OF representable_neg_half])

lemmas round64_simps =
  round64_numeral round64_neg_numeral round64_1 round64_half round64_neg_half

lemmas float_defs = fadd_def fsub_def fmul_def fdiv_def zero_of_def inf_of_def

section \<open>Evaluating the model\<close>

lemma upt_4: "[0..<4] = [0, 1, 2, 3]"
  by (simp add: upt_rec)

lemma eye_4:
  "eye 4 = [[Fin 1, Fin 0, Fin 0, Fin 0], [Fin 0, Fin 1, Fin 0, Fin 0],
            [Fin 0, Fin 0, Fin 1, Fin 0], [Fin 0, Fin 0, Fin 0, Fin 1]]"
  by (simp add: eye_def upt_4)

lemma set_matrix_explicit:
  "set_translation (set_rotation (eye 4) ((a0, a1, a2), (b0, b1, b2), (c0, c1, c2))) (t0, t1, t2)
     = [[a0, a1, a2, t0], [b0, b1, b2, t1], [c0, c1, c2, t2], [Fin 0, Fin 0, Fin 0, Fin 1]]"
  by (simp add: eye_4)

lemma getMatrixToACPC_shape:
  "\<exists>a0 a1 a2 t0 b0 b1 b2 t1 c0 c1 c2 t2.
     getMatrixToACPC ac pc ih =
       [[a0, a1, a2, t0], [b0, b1, b2, t1], [c0, c1, c2, t2], [Fin 0, Fin 0, Fin 0, Fin 1]]"
proof -
  obtain r t where g: "getMatrixToACPC ac pc ih = set_translation (set_rotation (eye 4) r) t"
    by (simp add: getMatrixToACPC_def Let_def)
  obtain a0 a1 a2 b0 b1 b2 c0 c1 c2 where r: "r = ((a0, a1, a2), (b0, b1, b2), (c0, c1, c2))"
    by (metis prod.exhaust)
  obtain t0 t1 t2 where t: "t = (t0, t1, t2)"
    by (metis prod.exhaust)
  show ?thesis
    unfolding g r t set_matrix_explicit by blast
qed

text \<open>Row 1 of the rotation block is \<open>yAxis\<close>.\<close>

lemma rotRow_1:
  "rotRow (getMatrixToACPC ac pc ih) 1 = vdivs (vsub ac pc) (linalg_norm (vsub ac pc))"
proof -
  obtain y0 y1 y2 where y: "vdivs (vsub ac pc) (linalg_norm (vsub ac pc)) = (y0, y1, y2)"
    by (metis prod.exhaust)
  obtain x0 x1 x2 where x:
    "vdivs (cross (y0, y1, y2) (vsub ih ac)) (linalg_norm (cross (y0, y1, y2) (vsub ih ac)))
       = (x0, x1, x2)"
    by (metis prod.exhaust)
  obtain z0 z1 z2 where z: "cross (x0, x1, x2) (y0, y1, y2) = (z0, z1, z2)"
    by (metis prod.exhaust)
  obtain t0 t1 t2 where t:
    "vneg (matvec (vstack (x0, x1, x2) (y0, y1, y2) (z0, z1, z2))
       (vsub ac (vmuls (y0, y1, y2) (fmul (Fin 0.5) (linalg_norm (vsub ac pc)))))) = (t0, t1, t2)"
    by (metis prod.exhaust)
  show ?thesis
    unfolding getMatrixToACPC_def Let_def y x z t
    by (simp add: vstack_def eye_4 rotRow_def)
qed

lemma sqrt_100: "sqrt 100 = 10"
  using real_sqrt_abs [of 10] by simp

lemma sqrt_400: "sqrt 400 = 20"
  using real_sqrt_abs [of 20] by simp

text \<open>The spec's scenario: every intermediate value is representable.\<close>

lemma getMatrixToACPC_example:
  "getMatrixToACPC (fv (0, 5, 0)) (fv (0, - 5, 0)) (fv (0, 0, 10)) =
     [[Fin 1, Fin 0, NZero, NZero], [Fin 0, Fin 1, Fin 0, NZero],
      [Fin 0, NZero, Fin 1, NZero], [Fin 0, Fin 0, Fin 0, Fin 1]]"
  by (simp add: getMatrixToACPC_def Let_def linalg_norm_def float_defs vstack_def eye_4
      sqrt_100 round64_simps)

text \<open>
  A coordinate of \<open>2^700\<close>: its square overflows, the norm is infinite, \<open>yAxis\<close> is
  zero and \<open>xAxis\<close> is \<open>0 / 0\<close>.
\<close>

lemma round64_huge:
  assumes "h = 2 ^ 700"
  shows "round64 h = Fin h" "round64 (- h) = Fin (- h)" "round64 (h * h) = PInf"
proof -
  have pos: "0 < h"
    by (simp add: assms)
  have "representable h"
    unfolding representable_def assms
    by (rule exI [of _ 1], rule exI [of _ 700]) (use pow2_nat [of 700] in simp)
  then show 1: "round64 h = Fin h"
    by (rule round64_representable)
  show "round64 (- h) = Fin (- h)"
    using round64_minus [of h] pos by (simp add: 1)
  have "(2::real) ^ 1024 \<le> 2 ^ 700 * 2 ^ 700"
    by (simp add: power_add [symmetric])
  then have "2 ^ 1024 \<le> \<bar>h * h\<bar>"
    by (simp add: assms)
  from round64_overflow [OF this] pos show "round64 (h * h) = PInf"
    by simp
qed


lemma getMatrixToACPC_overflow_swapped:
  "getMatrixToACPC (fv (0, 0, 0)) (fv (2 ^ 700, 0, 0)) (fv (0, 1, 0)) =
     [[NaN, NaN, NaN, NaN], [NZero, Fin 0, Fin 0, NaN], [NaN, NaN, NaN, NaN],
      [Fin 0, Fin 0, Fin 0, Fin 1]]"
proof -
  define h :: real where "h = 2 ^ 700"
  have pos: "0 < h"
    by (simp add: h_def)
  have "getMatrixToACPC (fv (0, 0, 0)) (fv (h, 0, 0)) (fv (0, 1, 0)) =
     [[NaN, NaN, NaN, NaN], [NZero, Fin 0, Fin 0, NaN], [NaN, NaN, NaN, NaN],
      [Fin 0, Fin 0, Fin 0, Fin 1]]"
    using pos
    by (simp add: getMatrixToACPC_def Let_def linalg_norm_def float_defs vstack_def eye_4
        round64_huge [OF h_def] round64_simps)
  then show ?thesis
    by (simp only: h_def)
qed

text \<open>
  A coordinate of \<open>2^-1074\<close>, the smallest subnormal: its square underflows to zero,
  so the norm of the cross product is zero; at \<open>2^-474\<close> nothing is lost.
\<close>

lemma round64_neg_1: "round64 (- 1) = Fin (- 1)"
  using round64_minus [of 1] by (simp add: round64_1)

lemma round64_tiny:
  assumes "t = 1 / 2 ^ 1074"
  shows "round64 t = Fin t" "round64 (- t) = Fin (- t)" "round64 (t * t) = Fin 0"
proof -
  have pos: "0 < t"
    by (simp add: assms)
  have "representable t"
    unfolding representable_def assms
    by (rule exI [of _ 1], rule exI [of _ "- 1074"]) (use pow2_neg_nat [of 1074] in simp)
  then show 1: "round64 t = Fin t"
    by (rule round64_representable)
  show "round64 (- t) = Fin (- t)"
    using round64_minus [of t] pos by (simp add: 1)
  have "t * t = 1 / 2 ^ (1074 + 1074)"
    unfolding assms power_add by simp
  also have "\<dots> \<le> 1 / 2 ^ 1075"
    by (intro divide_left_mono power_increasing) simp_all
  finally have "\<bar>t * t\<bar> \<le> pow2 (- 1075)"
    using pow2_neg_nat [of 1075] by simp
  from round64_underflow [OF _ this] pos show "round64 (t * t) = Fin 0"
    by simp
qed

lemma round64_small:
  assumes "u = 1 / 2 ^ 474"
  shows "round64 u = Fin u" "round64 (- u) = Fin (- u)" "round64 (u * u) = Fin (u * u)"
proof -
  have pos: "0 < u"
    by (simp add: assms)
  have "representable u"
    unfolding representable_def assms
    by (rule exI [of _ 1], rule exI [of _ "- 474"]) (use pow2_neg_nat [of 474] in simp)
  then show 1: "round64 u = Fin u"
    by (rule round64_representable)
  show "round64 (- u) = Fin (- u)"
    using round64_minus [of u] pos by (simp add: 1)
  have "u * u = 1 / 2 ^ (474 + 474)"
    unfolding assms power_add by simp
  then have "u * u = 1 * pow2 (- 948)"
    using pow2_neg_nat [of 948] by simp
  then have "representable (u * u)"
    unfolding representable_def
    by (intro exI [of _ 1] exI [of _ "- 948"]) simp
  then show "round64 (u * u) = Fin (u * u)"
    by (rule round64_representable)
qed

lemma getMatrixToACPC_underflow:
  "getMatrixToACPC (fv (0, 1, 0)) (fv (0, 0, 0)) (fv (1 / 2 ^ 1074, 1, 0)) =
     [[NaN, NaN, NInf, NaN], [Fin 0, Fin 1, Fin 0, Fin (- (1 / 2))], [NaN, NaN, NaN, NaN],
      [Fin 0, Fin 0, Fin 0, Fin 1]]"
proof -
  define t :: real where "t = 1 / 2 ^ 1074"
  have pos: "0 < t"
    by (simp add: t_def)
  have "getMatrixToACPC (fv (0, 1, 0)) (fv (0, 0, 0)) (fv (t, 1, 0)) =
     [[NaN, NaN, NInf, NaN], [Fin 0, Fin 1, Fin 0, Fin (- (1 / 2))], [NaN, NaN, NaN, NaN],
      [Fin 0, Fin 0, Fin 0, Fin 1]]"
    using pos
    by (simp add: getMatrixToACPC_def Let_def linalg_norm_def float_defs vstack_def eye_4
        round64_tiny [OF t_def] round64_simps round64_neg_1)
  then show ?thesis
    by (simp only: t_def)
qed

lemma getMatrixToACPC_no_underflow:
  "getMatrixToACPC (fv (0, 1, 0)) (fv (0, 0, 0)) (fv (1 / 2 ^ 474, 1, 0)) =
     [[Fin 0, Fin 0, Fin (- 1), NZero], [Fin 0, Fin 1, Fin 0, Fin (- (1 / 2))],
      [Fin 1, NZero, Fin 0, NZero], [Fin 0, Fin 0, Fin 0, Fin 1]]"
proof -
  define u :: real where "u = 1 / 2 ^ 474"
  have pos: "0 < u"
    by (simp add: u_def)
  have "getMatrixToACPC (fv (0, 1, 0)) (fv (0, 0, 0)) (fv (u, 1, 0)) =
     [[Fin 0, Fin 0, Fin (- 1), NZero], [Fin 0, Fin 1, Fin 0, Fin (- (1 / 2))],
      [Fin 1, NZero, Fin 0, NZero], [Fin 0, Fin 0, Fin 0, Fin 1]]"
    using pos
    by (simp add: getMatrixToACPC_def Let_def linalg_norm_def float_defs vstack_def eye_4
        round64_small [OF u_def] round64_simps round64_neg_1)
  then show ?thesis
    by (simp only: u_def)
qed

section \<open>NaN and zero propagate\<close>

lemma fmul_NaN: "fmul NaN b = NaN" "fmul a NaN = NaN"
  by (simp_all add: fmul_def)

lemma fadd_NaN: "fadd NaN b = NaN" "fadd a NaN = NaN"
  by (simp_all add: fadd_def)

lemma fdiv_NaN: "fdiv NaN b = NaN" "fdiv a NaN = NaN"
  by (simp_all add: fdiv_def)

lemma fsub_NaN: "fsub NaN b = NaN" "fsub a NaN = NaN"
  by (simp_all add: fsub_def fadd_NaN)

lemmas NaN_simps = fmul_NaN fadd_NaN fdiv_NaN fsub_NaN

lemma cross_NaN_left: "cross (NaN, NaN, NaN) b = (NaN, NaN, NaN)"
  by (cases b) (simp add: NaN_simps)

lemma vdot_NaN_left: "vdot (NaN, NaN, NaN) b = NaN"
  by (cases b) (simp add: NaN_simps)

lemma vsub_NaN_right: "vsub a (NaN, NaN, NaN) = (NaN, NaN, NaN)"
  by (cases a) (simp add: NaN_simps)

lemma linalg_norm_NaN: "linalg_norm (NaN, NaN, NaN) = NaN"
  by (simp add: linalg_norm_def NaN_simps)

text \<open>\<open>a - a\<close> is \<open>+0\<close>, or NaN when \<open>a\<close> is not finite.\<close>

lemma fsub_self: "fsub a a = Fin 0 \<or> fsub a a = NaN"
  by (cases a) (simp_all add: float_defs)

lemma zn_fmul: "a = Fin 0 \<or> a = NaN \<Longrightarrow> fmul a a = a"
  by (auto simp: float_defs)

lemma zn_fadd:
  "a = Fin 0 \<or> a = NaN \<Longrightarrow> b = Fin 0 \<or> b = NaN \<Longrightarrow> fadd a b = Fin 0 \<or> fadd a b = NaN"
  by (auto simp: float_defs)

lemma zn_fsqrt: "a = Fin 0 \<or> a = NaN \<Longrightarrow> fsqrt a = Fin 0 \<or> fsqrt a = NaN"
  by auto

lemma zn_fdiv: "a = Fin 0 \<or> a = NaN \<Longrightarrow> b = Fin 0 \<or> b = NaN \<Longrightarrow> fdiv a b = NaN"
  by (auto simp: float_defs)

lemma zero_or_NaN_norm:
  assumes "a0 = Fin 0 \<or> a0 = NaN" "a1 = Fin 0 \<or> a1 = NaN" "a2 = Fin 0 \<or> a2 = NaN"
  shows "vdivs (a0, a1, a2) (linalg_norm (a0, a1, a2)) = (NaN, NaN, NaN)"
proof -
  have n: "linalg_norm (a0, a1, a2) = Fin 0 \<or> linalg_norm (a0, a1, a2) = NaN"
    unfolding linalg_norm_def vdot.simps zn_fmul [OF assms(1)] zn_fmul [OF assms(2)]
      zn_fmul [OF assms(3)]
    by (intro zn_fsqrt zn_fadd assms)
  show ?thesis
    by (simp only: vdivs.simps zn_fdiv [OF assms(1) n] zn_fdiv [OF assms(2) n]
        zn_fdiv [OF assms(3) n])
qed

lemma getMatrixToACPC_coincident:
  "getMatrixToACPC ac ac ih =
     [[NaN, NaN, NaN, NaN], [NaN, NaN, NaN, NaN], [NaN, NaN, NaN, NaN],
      [Fin 0, Fin 0, Fin 0, Fin 1]]"
proof -
  obtain a0 a1 a2 where ac: "ac = (a0, a1, a2)"
    by (cases ac)
  have y: "vdivs (vsub ac ac) (linalg_norm (vsub ac ac)) = (NaN, NaN, NaN)"
    unfolding ac vsub.simps by (rule zero_or_NaN_norm) (rule fsub_self)+
  show ?thesis
    unfolding getMatrixToACPC_def Let_def y
    by (simp only: cross_NaN_left linalg_norm_NaN vdivs.simps vmuls.simps fdiv_NaN fmul_NaN
        vsub_NaN_right vstack_def matvec.simps vdot_NaN_left vneg.simps fneg.simps
        set_matrix_explicit)
qed

lemma is_zero_fmul: "is_zero a \<Longrightarrow> fmul a a = Fin 0"
  by (cases a) (simp_all add: float_defs)

lemma is_zero_fdiv: "is_zero a \<Longrightarrow> fdiv a (Fin 0) = NaN"
  by (cases a) (simp_all add: float_defs)

lemma zero_norm_NaN:
  assumes "is_zero c0" "is_zero c1" "is_zero c2"
  shows "vdivs (c0, c1, c2) (linalg_norm (c0, c1, c2)) = (NaN, NaN, NaN)"
proof -
  have "linalg_norm (c0, c1, c2) = Fin 0"
    by (simp add: linalg_norm_def is_zero_fmul assms) (simp add: float_defs)
  then show ?thesis
    by (simp add: is_zero_fdiv assms)
qed

lemma getMatrixToACPC_zero_cross:
  assumes "cross (vdivs (vsub ac pc) (linalg_norm (vsub ac pc))) (vsub ih ac) = (c0, c1, c2)"
    and "is_zero c0" "is_zero c1" "is_zero c2"
  shows "\<exists>r. getMatrixToACPC ac pc ih =
     [[NaN, NaN, NaN, NaN], r, [NaN, NaN, NaN, NaN], [Fin 0, Fin 0, Fin 0, Fin 1]]"
proof -
  note x = zero_norm_NaN [OF assms(2-4)]
  obtain y0 y1 y2 where yy: "vdivs (vsub ac pc) (linalg_norm (vsub ac pc)) = (y0, y1, y2)"
    by (metis prod.exhaust)
  show ?thesis
    unfolding getMatrixToACPC_def Let_def assms(1) x
    by (simp only: cross_NaN_left vstack_def matvec.simps vdot_NaN_left vneg.simps fneg.simps
        yy set_matrix_explicit) blast
qed

section \<open>Vector algebra\<close>

lemma rsub_eq_0: "rsub a b = (0, 0, 0) \<longleftrightarrow> a = b"
  by (cases a; cases b) simp

lemma rsub_self: "rsub a a = (0, 0, 0)"
  by (cases a) simp

lemma rsub_radd_cancel: "rsub (radd a b) a = b"
  by (cases a; cases b) simp

lemma radd_rneg: "radd a (rneg a) = (0, 0, 0)"
  by (cases a) simp

lemma rneg_eq_0: "rneg a = (0, 0, 0) \<longleftrightarrow> a = (0, 0, 0)"
  by (cases a) simp


lemma rmuls_zero: "rmuls (0, 0, 0) k = (0, 0, 0)"
  by simp

lemma rmuls_eq_0: "k \<noteq> 0 \<Longrightarrow> rmuls a k = (0, 0, 0) \<longleftrightarrow> a = (0, 0, 0)"
  by (cases a) simp


lemma rdivs_rmuls_cancel: "k \<noteq> 0 \<Longrightarrow> rdivs (rmuls a k) (s * k) = rdivs a s"
  by (cases a) simp


lemma rdot_self_nonneg: "0 \<le> rdot a a"
  by (cases a) simp

lemma rdot_self_eq_0: "rdot a a = 0 \<longleftrightarrow> a = (0, 0, 0)"
  by (cases a) (auto simp: sum_squares_eq_zero_iff add_nonneg_eq_0_iff)

lemma rdot_rdivs: "rdot (rdivs a s) (rdivs b r) = rdot a b / (s * r)"
  by (cases a; cases b) (simp add: add_divide_distrib)

lemma rdot_rdivs_left: "rdot (rdivs a s) b = rdot a b / s"
  by (cases a; cases b) (simp add: add_divide_distrib)

lemma rdot_rmuls_right: "rdot a (rmuls b s) = s * rdot a b"
  by (cases a; cases b) (simp add: algebra_simps)


lemma rnorm_zero: "rnorm (0, 0, 0) = 0"
  by (simp add: rnorm_def)

lemma rnorm_eq_0: "rnorm a = 0 \<longleftrightarrow> a = (0, 0, 0)"
  by (simp add: rnorm_def rdot_self_eq_0)

lemma rnorm_sq: "rnorm a * rnorm a = rdot a a"
  by (simp add: rnorm_def rdot_self_nonneg)

lemma rnorm_rmuls:
  assumes "0 < k"
  shows "rnorm (rmuls a k) = rnorm a * k"
proof -
  have "rdot (rmuls a k) (rmuls a k) = rdot a a * (k * k)"
    by (cases a) (simp add: algebra_simps)
  then show ?thesis
    using assms by (simp add: rnorm_def real_sqrt_mult)
qed

lemma unit_rdivs_rnorm:
  assumes "v \<noteq> (0, 0, 0)"
  shows "rdot (rdivs v (rnorm v)) (rdivs v (rnorm v)) = 1"
proof -
  have "rdot v v \<noteq> 0"
    using assms by (simp add: rdot_self_eq_0)
  then show ?thesis
    by (simp add: rdot_rdivs rnorm_sq)
qed

lemma rcross_self: "rcross a a = (0, 0, 0)"
  by (cases a) simp


lemma rcross_rmuls_right: "rcross a (rmuls b k) = rmuls (rcross a b) k"
  by (cases a; cases b) (simp add: algebra_simps)

lemma rdot_rcross_left: "rdot (rcross a b) a = 0"
  by (cases a; cases b) (simp add: algebra_simps)

lemma rdot_rcross_right: "rdot (rcross a b) b = 0"
  by (cases a; cases b) (simp add: algebra_simps)







lemma parallel_of_rcross_0:
  assumes "rcross a b = (0, 0, 0)" and "a \<noteq> (0, 0, 0)"
  shows "b = rmuls a (rdot a b / rdot a a)"
proof -
  obtain a0 a1 a2 where a: "a = (a0, a1, a2)" by (cases a)
  obtain b0 b1 b2 where b: "b = (b0, b1, b2)" by (cases b)
  have c: "a1 * b2 = a2 * b1" "a2 * b0 = a0 * b2" "a0 * b1 = a1 * b0"
    using assms(1) by (simp_all add: a b)
  have nz: "rdot a a \<noteq> 0"
    using assms(2) by (simp add: rdot_self_eq_0)
  have "b0 * rdot a a = a0 * rdot a b"
    using c by (simp add: a b algebra_simps)
  moreover have "b1 * rdot a a = a1 * rdot a b"
    using c by (simp add: a b algebra_simps)
  moreover have "b2 * rdot a a = a2 * rdot a b"
    using c by (simp add: a b algebra_simps)
  ultimately show ?thesis
    using nz by (simp add: a b field_simps del: rdot.simps)
qed

section \<open>The frame in real arithmetic\<close>

lemma nondegenerate_iff:
  "nondegenerate ac pc ih \<longleftrightarrow>
     ac \<noteq> pc \<and> (\<forall>k. ih \<noteq> radd ac (rmuls (rsub ac pc) k))"
proof (cases "ac = pc")
  case True
  then show ?thesis by (simp add: nondegenerate_def)
next
  case False
  have "rcross (rsub ac pc) (rsub ih ac) = (0, 0, 0) \<longleftrightarrow>
        (\<exists>k. ih = radd ac (rmuls (rsub ac pc) k))"
  proof
    assume z: "rcross (rsub ac pc) (rsub ih ac) = (0, 0, 0)"
    have "rsub ac pc \<noteq> (0, 0, 0)"
      using False by (simp add: rsub_eq_0)
    from parallel_of_rcross_0 [OF z this]
    obtain k where "rsub ih ac = rmuls (rsub ac pc) k" by blast
    then have "ih = radd ac (rmuls (rsub ac pc) k)"
      by (cases ih; cases ac; cases pc) (simp add: algebra_simps)
    then show "\<exists>k. ih = radd ac (rmuls (rsub ac pc) k)" ..
  next
    assume "\<exists>k. ih = radd ac (rmuls (rsub ac pc) k)"
    then obtain k where "ih = radd ac (rmuls (rsub ac pc) k)" ..
    then show "rcross (rsub ac pc) (rsub ih ac) = (0, 0, 0)"
      by (simp only: rsub_radd_cancel rcross_rmuls_right rcross_self rmuls_zero)
  qed
  with False show ?thesis
    by (simp add: nondegenerate_def)
qed



lemma yAxisR_unit: "ac \<noteq> pc \<Longrightarrow> rdot (yAxisR ac pc) (yAxisR ac pc) = 1"
  by (simp add: yAxisR_def unit_rdivs_rnorm rsub_eq_0)


lemma xAxisR_yAxisR: "rdot (xAxisR ac pc ih) (yAxisR ac pc) = 0"
  by (simp add: xAxisR_def Let_def rdot_rdivs_left rdot_rcross_left)


lemma zAxisR_yAxisR: "rdot (zAxisR ac pc ih) (yAxisR ac pc) = 0"
  by (simp add: zAxisR_def rdot_rcross_right)






lemma rsub_ac_midpoint:
  "ac \<noteq> pc \<Longrightarrow> rsub ac (midpoint ac pc) = rmuls (yAxisR ac pc) (rnorm (rsub ac pc) / 2)"
  using rnorm_eq_0 [of "rsub ac pc"]
  by (cases ac; cases pc) (simp add: yAxisR_def field_simps)

lemma rsub_pc_midpoint:
  "ac \<noteq> pc \<Longrightarrow> rsub pc (midpoint ac pc) = rmuls (yAxisR ac pc) (- (rnorm (rsub ac pc) / 2))"
  using rnorm_eq_0 [of "rsub ac pc"]
  by (cases ac; cases pc) (simp add: yAxisR_def field_simps)

lemma rmatvec_along_yAxisR:
  assumes "nondegenerate ac pc ih"
  shows "rmatvec (xAxisR ac pc ih, yAxisR ac pc, zAxisR ac pc ih) (rmuls (yAxisR ac pc) s)
           = (0, s, 0)"
proof -
  have "ac \<noteq> pc"
    using assms by (simp add: nondegenerate_def)
  then show ?thesis
    by (simp add: rdot_rmuls_right xAxisR_yAxisR zAxisR_yAxisR yAxisR_unit)
qed

section \<open>Swapping ac and pc, moving ih along its ray\<close>

lemma rcross_swap: "rcross (rsub pc ac) (rsub ih pc) = rneg (rcross (rsub ac pc) (rsub ih ac))"
  by (cases ac; cases pc; cases ih) (simp add: algebra_simps)

lemma nondegenerate_swap: "nondegenerate pc ac ih \<longleftrightarrow> nondegenerate ac pc ih"
  using rcross_swap [of pc ac ih] by (auto simp: nondegenerate_def rneg_eq_0)

lemma rdot_rsub_swap: "rdot (rsub pc ac) (rsub pc ac) = rdot (rsub ac pc) (rsub ac pc)"
  by (cases ac; cases pc) (simp add: algebra_simps)

lemma rdivs_rsub_swap: "rdivs (rsub pc ac) s = rneg (rdivs (rsub ac pc) s)"
  by (cases ac; cases pc) (simp add: diff_divide_distrib)

lemma yAxisR_swap: "yAxisR pc ac = rneg (yAxisR ac pc)"
proof -
  have "rnorm (rsub pc ac) = rnorm (rsub ac pc)"
    unfolding rnorm_def by (rule arg_cong [OF rdot_rsub_swap])
  then show ?thesis
    unfolding yAxisR_def by (simp only: rdivs_rsub_swap [of pc ac])
qed

lemma midpoint_commute: "midpoint pc ac = midpoint ac pc"
  by (cases ac; cases pc) (simp add: add.commute)

lemma xAxisR_ray:
  assumes "0 < k"
  shows "xAxisR ac pc (radd ac (rmuls (rsub ih ac) k)) = xAxisR ac pc ih"
  using assms
  by (simp add: xAxisR_def Let_def rsub_radd_cancel rcross_rmuls_right rnorm_rmuls
      rdivs_rmuls_cancel)

lemma nondegenerate_ray:
  "0 < k \<Longrightarrow> nondegenerate ac pc (radd ac (rmuls (rsub ih ac) k)) \<longleftrightarrow> nondegenerate ac pc ih"
  by (simp add: nondegenerate_def rsub_radd_cancel rcross_rmuls_right rmuls_eq_0)

section \<open>Negation in float64\<close>

lemma fneg_fneg: "fneg (fneg a) = a"
  by (cases a) simp_all

lemma fadd_commute: "fadd a b = fadd b a"
  by (cases a; cases b) (simp_all add: fadd_def Let_def add.commute conj_commute)

lemma round64_minus_diff: "x + y \<noteq> 0 \<Longrightarrow> round64 (- x - y) = fneg (round64 (x + y))"
  using round64_minus [of "x + y"] by simp

lemma num_zero_of: "num (zero_of s) = Fin 0"
  by (simp add: zero_of_def)

lemma num_fneg_zero_of: "num (fneg (zero_of s)) = Fin 0"
  by (simp add: zero_of_def)

text \<open>Negating both operands negates a sum, up to the sign of a zero.\<close>

lemma fadd_fneg: "num (fadd (fneg a) (fneg b)) = num (fneg (fadd a b))"
proof (cases "is_finite a \<and> is_finite b")
  case True
  then obtain x y where v: "val a = x" "val b = y" and f: "is_finite a" "is_finite b"
    by simp
  have fa: "is_finite (fneg a)" "val (fneg a) = - x" "fneg a \<noteq> NaN" "a \<noteq> NaN"
    using f(1) v(1) by (cases a; simp)+
  have fb: "is_finite (fneg b)" "val (fneg b) = - y" "fneg b \<noteq> NaN" "b \<noteq> NaN"
    using f(2) v(2) by (cases b; simp)+
  show ?thesis
  proof (cases "x + y = 0")
    case True
    then show ?thesis
      by (simp add: fadd_def fa fb f v Let_def num_zero_of num_fneg_zero_of)
  next
    case False
    then show ?thesis
      by (simp add: fadd_def fa fb f v Let_def round64_minus_diff)
  qed
next
  case False
  then show ?thesis
    by (cases a; cases b) (simp_all add: fadd_def)
qed

lemma fsub_swap: "num (fsub b a) = num (fneg (fsub a b))"
proof -
  have "fsub b a = fadd (fneg a) (fneg (fneg b))"
    by (simp only: fsub_def fneg_fneg fadd_commute [of b])
  then show ?thesis
    by (simp only: fadd_fneg fsub_def)
qed

lemma num_fneg:
  "num (fneg u) =
     (case u of Fin x \<Rightarrow> Fin (- x) | NZero \<Rightarrow> Fin 0 | PInf \<Rightarrow> NInf | NInf \<Rightarrow> PInf
      | NaN \<Rightarrow> NaN)"
  by (cases u) simp_all

lemma num_fneg_NaN: "num w = num (fneg u) \<Longrightarrow> w = NaN \<longleftrightarrow> u = NaN"
  unfolding num_fneg by (cases w; cases u; simp)

lemma num_fneg_finite: "num w = num (fneg u) \<Longrightarrow> is_finite w = is_finite u"
  unfolding num_fneg by (cases w; cases u; simp)

lemma num_fneg_val: "num w = num (fneg u) \<Longrightarrow> val w = - val u"
  unfolding num_fneg by (cases w; cases u; simp)

lemma num_fneg_eq:
  "num w = num (fneg u) \<Longrightarrow> val u \<noteq> 0 \<or> \<not> is_finite u \<Longrightarrow> w = fneg u"
  unfolding num_fneg by (cases w; cases u; simp)

lemma fmul_self: 
  "fmul a a =
     (if a = NaN then NaN
      else if is_finite a then (if val a = 0 then Fin 0 else round64 (val a * val a))
      else PInf)"
  by (cases a) (simp_all add: float_defs)

lemma val_fneg: "val (fneg a) = - val a"
  by (cases a) simp_all

lemma num_eq_NaN: "num a = NaN \<longleftrightarrow> a = NaN"
  by (cases a) simp_all

lemma fmul_self_fneg: "num w = num (fneg u) \<Longrightarrow> fmul w w = fmul u u"
  using num_fneg_NaN [of w u] num_fneg_finite [of w u] num_fneg_val [of w u]
  by (simp add: fmul_self)

lemma fdiv_zero_num: "is_finite a \<Longrightarrow> val a = 0 \<Longrightarrow> num (fdiv a n) = NaN \<or> num (fdiv a n) = Fin 0"
  by (cases a; cases n) (auto simp: float_defs)

lemma fdiv_zero_NaN: "is_finite a \<Longrightarrow> val a = 0 \<Longrightarrow> is_finite b \<Longrightarrow> val b = 0 \<Longrightarrow>
   (fdiv a n = NaN \<longleftrightarrow> fdiv b n = NaN)"
  by (cases n) (auto simp: float_defs)

lemma fdiv_fneg_exact: "num (fdiv (fneg u) n) = num (fneg (fdiv u n))"
proof (cases "is_finite u \<and> is_finite n \<and> val u \<noteq> 0 \<and> val n \<noteq> 0")
  case True
  then obtain x y where u: "u = Fin x" "x \<noteq> 0" and n: "is_finite n" "val n = y" "y \<noteq> 0"
    by (cases u) auto
  have nn: "n \<noteq> NaN"
    using n(1) by auto
  have "x / y \<noteq> 0"
    using u n by simp
  then show ?thesis
    using u n nn by (simp add: fdiv_def Let_def round64_minus)
next
  case False
  then show ?thesis
    by (cases u; cases n) (auto simp: float_defs)
qed

lemma fdiv_fneg: 
  assumes "num w = num (fneg u)"
  shows "num (fdiv w n) = num (fneg (fdiv u n))"
proof (cases "val u \<noteq> 0 \<or> \<not> is_finite u")
  case True
  then have "w = fneg u"
    by (rule num_fneg_eq [OF assms])
  then show ?thesis
    by (simp only: fdiv_fneg_exact)
next
  case False
  then have u: "is_finite u" "val u = 0"
    by auto
  then have w: "is_finite w" "val w = 0"
    using num_fneg_finite [OF assms] num_fneg_val [OF assms] by auto
  have fu: "is_finite (fneg u)" "val (fneg u) = 0"
    using u by (cases u; simp)+
  have A: "num (fdiv w n) = NaN \<or> num (fdiv w n) = Fin 0"
    by (rule fdiv_zero_num [OF w])
  have B: "num (fdiv (fneg u) n) = NaN \<or> num (fdiv (fneg u) n) = Fin 0"
    by (rule fdiv_zero_num [OF fu])
  have C: "fdiv w n = NaN \<longleftrightarrow> fdiv (fneg u) n = NaN"
    by (rule fdiv_zero_NaN [OF w fu])
  have "num (fdiv w n) = num (fdiv (fneg u) n)"
  proof (cases "fdiv w n = NaN")
    case True
    with C show ?thesis
      by simp
  next
    case False
    with C have "num (fdiv w n) \<noteq> NaN" "num (fdiv (fneg u) n) \<noteq> NaN"
      by (simp_all add: num_eq_NaN)
    with A B show ?thesis
      by simp
  qed
  then show ?thesis
    by (simp only: fdiv_fneg_exact)
qed

text \<open>\<open>yAxis\<close> of the swapped call is the negation of \<open>yAxis\<close>, up to the sign of a zero.\<close>

lemma yAxis_swapped:
  "same_values (vdivs (vsub pc ac) (linalg_norm (vsub pc ac)))
     (vneg (vdivs (vsub ac pc) (linalg_norm (vsub ac pc))))"
proof -
  obtain a0 a1 a2 where ac: "ac = (a0, a1, a2)"
    by (cases ac)
  obtain p0 p1 p2 where pc: "pc = (p0, p1, p2)"
    by (cases pc)
  note s = fsub_swap [of p0 a0] fsub_swap [of p1 a1] fsub_swap [of p2 a2]
  have n: "linalg_norm (vsub pc ac) = linalg_norm (vsub ac pc)"
    by (simp add: ac pc linalg_norm_def s [THEN fmul_self_fneg])
  show ?thesis
    unfolding n by (simp add: ac pc s [THEN fdiv_fneg])
qed

section \<open>run and the store\<close>

lemma to_vtkMatrix_4x4:
  "to_vtkMatrix [[a0, a1, a2, a3], [b0, b1, b2, b3], [c0, c1, c2, c3], [d0, d1, d2, d3]]
     = [[a0, a1, a2, a3], [b0, b1, b2, b3], [c0, c1, c2, c3], [d0, d1, d2, d3]]"
  by (simp add: to_vtkMatrix_def upt_4 eye_4)

lemma to_vtkMatrix_getMatrixToACPC:
  "to_vtkMatrix (getMatrixToACPC ac pc ih) = getMatrixToACPC ac pc ih"
  using getMatrixToACPC_shape [of ac pc ih] by (auto simp only: to_vtkMatrix_4x4)

text \<open>After \<open>n\<close> iterations the loop has bound the names of the indices below \<open>n\<close>.\<close>

lemma loop_locals:
  "fold (loop_body fid) [0..<n] \<lparr>local_ac = None, local_pc = None, local_ih = None\<rparr> =
     \<lparr>local_ac = (if 0 < n then Some (fid ! 0) else None),
      local_pc = (if 1 < n then Some (fid ! 1) else None),
      local_ih = (if 2 < n then Some (fid ! 2) else None)\<rparr>"
proof (induction n)
  case 0
  show ?case by simp
next
  case (Suc n)
  have "fold (loop_body fid) [0..<Suc n]
          \<lparr>local_ac = None, local_pc = None, local_ih = None\<rparr> =
        loop_body fid n (fold (loop_body fid) [0..<n]
          \<lparr>local_ac = None, local_pc = None, local_ih = None\<rparr>)"
    by simp
  also have "\<dots> = loop_body fid n
     \<lparr>local_ac = (if 0 < n then Some (fid ! 0) else None),
      local_pc = (if 1 < n then Some (fid ! 1) else None),
      local_ih = (if 2 < n then Some (fid ! 2) else None)\<rparr>"
    by (simp only: Suc)
  also have "\<dots> =
     \<lparr>local_ac = (if 0 < Suc n then Some (fid ! 0) else None),
      local_pc = (if 1 < Suc n then Some (fid ! 1) else None),
      local_ih = (if 2 < Suc n then Some (fid ! 2) else None)\<rparr>"
    by (auto simp: loop_body_def Let_def)
  finally show ?case .
qed

text \<open>
  Symbolic execution on the store: the ten arrays of the body and the result take the
  next eleven addresses, and nothing below them is written.
\<close>

lemma getMatrixToACPC_st_exec:
  assumes "heap s ac = Some (Arr1 a)" "heap s pc = Some (Arr1 p)" "heap s ih = Some (Arr1 i)"
    and "ac < next_addr s" "pc < next_addr s" "ih < next_addr s"
  shows "\<exists>s'. getMatrixToACPC_st ac pc ih s = Some (next_addr s + 10, s') \<and>
     heap s' (next_addr s + 10) = Some (Arr4 (getMatrixToACPC a p i)) \<and>
     (\<forall>b < next_addr s. heap s' b = heap s b)"
  using assms
  by (simp add: getMatrixToACPC_st_def np_subtract_def np_linalg_norm_def np_divide_def
      np_idivide_def np_cross_def np_vstack_def np_dot_scalar_def np_dot_def np_negative_def
      np_eye_def setitem_rotation_def setitem_translation_def read1_def read2_def read4_def
      alloc_def overwrite_def getMatrixToACPC_def Let_def)

section \<open>Results computed exactly\<close>




lemma representable_tiny: "representable (1 / 2 ^ 1074)"
  unfolding representable_def
  by (rule exI [of _ 1], rule exI [of _ "- 1074"]) (use pow2_neg_nat [of 1074] in simp)

lemma representable_small: "representable (1 / 2 ^ 474)"
  unfolding representable_def
  by (rule exI [of _ 1], rule exI [of _ "- 474"]) (use pow2_neg_nat [of 474] in simp)



lemma not_finite_top_overflow_swapped:
  "\<not> finite_top (getMatrixToACPC (fv (0, 0, 0)) (fv (2 ^ 700, 0, 0)) (fv (0, 1, 0)))"
  unfolding getMatrixToACPC_overflow_swapped by (simp add: finite_top_def)



lemma getMatrixToACPC_example_swapped:
  "getMatrixToACPC (fv (0, - 5, 0)) (fv (0, 5, 0)) (fv (0, 0, 10)) =
     [[Fin (- 1), Fin 0, Fin 0, NZero], [Fin 0, Fin (- 1), Fin 0, NZero],
      [Fin 0, Fin 0, Fin 1, NZero], [Fin 0, Fin 0, Fin 0, Fin 1]]"
  by (simp add: getMatrixToACPC_def Let_def linalg_norm_def float_defs vstack_def eye_4
      sqrt_100 round64_simps round64_neg_1)

lemma scenario_swapped_exact: "computed_exactly (0, - 5, 0) (0, 5, 0) (0, 0, 10)"
  unfolding computed_exactly_def Let_def getMatrixToACPC_example_swapped
  by (simp add: representable_simps finite_top_def rowR_def rotRow_def transR_def
      translationOf_def xAxisR_def yAxisR_def zAxisR_def translationR_def rnorm_def sqrt_100)

lemma getMatrixToACPC_example_ray:
  "getMatrixToACPC (fv (0, 5, 0)) (fv (0, - 5, 0)) (fv (0, - 5, 20)) =
     [[Fin 1, Fin 0, NZero, NZero], [Fin 0, Fin 1, Fin 0, NZero],
      [Fin 0, NZero, Fin 1, NZero], [Fin 0, Fin 0, Fin 0, Fin 1]]"
  by (simp add: getMatrixToACPC_def Let_def linalg_norm_def float_defs vstack_def eye_4
      sqrt_100 sqrt_400 round64_simps)

lemma scenario_ray: "radd (0, 5, 0) (rmuls (rsub (0, 0, 10) (0, 5, 0)) 2) = (0, - 5, 20)"
  by simp

lemma scenario_ray_exact: "computed_exactly (0, 5, 0) (0, - 5, 0) (0, - 5, 20)"
  unfolding computed_exactly_def Let_def getMatrixToACPC_example_ray
  by (simp add: representable_simps finite_top_def rowR_def rotRow_def transR_def
      translationOf_def xAxisR_def yAxisR_def zAxisR_def translationR_def rnorm_def sqrt_100
      sqrt_400)

text \<open>The inputs with a subnormal coordinate: a non-degenerate triple and a point of its ray.\<close>

lemma underflow_ray:
  "radd (0, 1, 0) (rmuls (rsub (1 / 2 ^ 1074, 1, 0) (0, 1, 0)) (2 ^ 600)) = (1 / 2 ^ 474, 1, 0)"
proof -
  have "(2::real) ^ 1074 = 2 ^ 474 * 2 ^ 600"
    by (simp add: power_add [symmetric])
  then have "(2::real) ^ 600 / 2 ^ 1074 = 1 / 2 ^ 474"
    by simp
  then show ?thesis
    by simp
qed

lemma underflow_input:
  "float64_input (0, 1, 0) \<and> float64_input (0, 0, 0) \<and> float64_input (1 / 2 ^ 1074, 1, 0) \<and>
   float64_input (1 / 2 ^ 474, 1, 0) \<and>
   nondegenerate (0, 1, 0) (0, 0, 0) (1 / 2 ^ 1074, 1, 0)"
proof -
  have "float64_input (1 / 2 ^ 1074, 1, 0)" "float64_input (1 / 2 ^ 474, 1, 0)"
    by (simp_all only: float64_input.simps representable_tiny representable_small
        representable_0 representable_1 simp_thms)
  moreover have "float64_input (0, 0, 0)" "float64_input (0, 1, 0)"
    by (simp_all add: representable_simps)
  moreover have "nondegenerate (0, 1, 0) (0, 0, 0) (1 / 2 ^ 1074, 1, 0)"
    by (simp add: nondegenerate_def)
  ultimately show ?thesis
    by blast
qed

section \<open>The claims\<close>










text \<open>
  C7, as the spec states it: with fewer or more than three landmark points, or a
  coordinate that is not finite, the builder fails fast with an InvalidInputError and
  computes no matrix. \<open>run\<close> has no such check: with four points, and with a NaN
  coordinate, it computes a matrix and hands it to the transform node (the first is the identity, some
  of its zeros negative).
\<close>

theorem run_unvalidated_counterexample:
  "run [fv (0, 5, 0), fv (0, - 5, 0), fv (0, 0, 10), fv (1, 1, 1)] False =
     Inr [SetAndObserveMatrixTransformToParent
            [[Fin 1, Fin 0, NZero, NZero], [Fin 0, Fin 1, Fin 0, NZero],
             [Fin 0, NZero, Fin 1, NZero], [Fin 0, Fin 0, Fin 0, Fin 1]],
          SetAndObserveTransformNodeID_acpcFid,
          SetAndObserveTransformNodeID_volumeNode] \<and>
   run [(NaN, Fin 5, Fin 0), fv (0, - 5, 0), fv (0, 0, 10)] False =
     Inr [SetAndObserveMatrixTransformToParent
            [[NaN, NaN, NaN, NaN], [NaN, NaN, NaN, NaN],
             [NaN, NaN, NaN, NaN], [Fin 0, Fin 0, Fin 0, Fin 1]],
          SetAndObserveTransformNodeID_acpcFid,
          SetAndObserveTransformNodeID_volumeNode]"
proof -
  have nan: "getMatrixToACPC (NaN, Fin 5, Fin 0) (fv (0, - 5, 0)) (fv (0, 0, 10)) =
     [[NaN, NaN, NaN, NaN], [NaN, NaN, NaN, NaN],
      [NaN, NaN, NaN, NaN], [Fin 0, Fin 0, Fin 0, Fin 1]]"
    by (simp add: getMatrixToACPC_def Let_def linalg_norm_def float_defs vstack_def eye_4
        round64_simps)
  have l4: "length [fv (0, 5, 0), fv (0, - 5, 0), fv (0, 0, 10), fv (1, 1, 1)] = 4"
    by simp
  have l3: "length [(NaN, Fin 5, Fin 0), fv (0, - 5, 0), fv (0, 0, 10)] = 3"
    by simp
  show ?thesis
    by (simp only: run_def loop_locals l3 l4 Let_def to_vtkMatrix_getMatrixToACPC)
       (simp add: getMatrixToACPC_example [simplified] nan [simplified])
qed

text \<open>
  C7, amended: \<open>run\<close> validates nothing and has no InvalidInputError. With fewer than
  three landmark points it fails before any matrix is computed, with Python's
  UnboundLocalError for the first of \<open>ac\<close>, \<open>pc\<close>, \<open>ih\<close> that the loop did not bind;
  with three or more it takes the first three, ignores the others, checks no
  coordinate, and hands \<open>getMatrixToACPC\<close> of the three to the transform node.
\<close>

theorem run_by_number_of_points:
  "run acpcFid autoHarden =
     (if length acpcFid = 0 then Inl (UnboundLocalError ''ac'')
      else if length acpcFid = 1 then Inl (UnboundLocalError ''pc'')
      else if length acpcFid = 2 then Inl (UnboundLocalError ''ih'')
      else Inr ([SetAndObserveMatrixTransformToParent
                   (getMatrixToACPC (acpcFid ! 0) (acpcFid ! 1) (acpcFid ! 2)),
                 SetAndObserveTransformNodeID_acpcFid,
                 SetAndObserveTransformNodeID_volumeNode] @
                (if autoHarden then [hardenTransform_acpcFid, hardenTransform_volumeNode]
                 else [])))"
proof -
  consider "length acpcFid = 0" | "length acpcFid = 1" | "length acpcFid = 2"
    | "2 < length acpcFid"
    by linarith
  then show ?thesis
  proof cases
    case 1
    then show ?thesis by (simp add: run_def)
  next
    case 2
    then show ?thesis by (simp add: run_def loop_locals del: upt_Suc)
  next
    case 3
    then show ?thesis by (simp add: run_def loop_locals del: upt_Suc)
  next
    case 4
    then show ?thesis
      by (simp add: run_def loop_locals Let_def to_vtkMatrix_getMatrixToACPC del: upt_Suc)
  qed
qed

theorem run_by_number_of_points_witness:
  "run [fv (0, 5, 0), fv (0, - 5, 0)] True = Inl (UnboundLocalError ''ih'')"
  using run_by_number_of_points [of "[fv (0, 5, 0), fv (0, - 5, 0)]" True] by simp

text \<open>
  C8. For \<open>ac = (0,5,0)\<close>, \<open>pc = (0,-5,0)\<close>, \<open>ih = (0,0,10)\<close> the anteroposterior row of
  the returned matrix is \<open>(0,1,0)\<close>, the transform sends \<open>ac\<close> to \<open>(0,5,0)\<close> and \<open>pc\<close>
  to \<open>(0,-5,0)\<close>, and the image of \<open>ih\<close> is zero on the anteroposterior axis.
\<close>

theorem concrete_scenario:
  "(let m = getMatrixToACPC (fv (0, 5, 0)) (fv (0, - 5, 0)) (fv (0, 0, 10))
    in rotRow m 1 = fv (0, 1, 0) \<and>
       applyTransform m (fv (0, 5, 0)) = fv (0, 5, 0) \<and>
       applyTransform m (fv (0, - 5, 0)) = fv (0, - 5, 0) \<and>
       fst (snd (applyTransform m (fv (0, 0, 10)))) = Fin 0)"
  unfolding Let_def getMatrixToACPC_example
  by (simp add: rotRow_def applyTransform_def rotationOf_def translationOf_def float_defs
      round64_simps)

text \<open>
  C9. In a well-formed store where \<open>ac\<close>, \<open>pc\<close> and \<open>ih\<close> are arrays of shape (3,)
  (any three, degenerate or not, aliased or not), \<open>getMatrixToACPC\<close> returns: its
  result is a new array, which holds the matrix of the value model, and every array
  that was in the store before the call, \<open>ac\<close>, \<open>pc\<close> and \<open>ih\<close> among them, is
  unchanged after it.
\<close>

theorem getMatrixToACPC_st_frame:
  assumes "wf_store s"
    and "heap s ac = Some (Arr1 a)" and "heap s pc = Some (Arr1 p)"
    and "heap s ih = Some (Arr1 i)"
  shows "\<exists>m s'. getMatrixToACPC_st ac pc ih s = Some (m, s') \<and>
           heap s' m = Some (Arr4 (getMatrixToACPC a p i)) \<and>
           heap s m = None \<and>
           (\<forall>b. heap s b \<noteq> None \<longrightarrow> heap s' b = heap s b)"
proof -
  have below: "\<And>b. heap s b \<noteq> None \<Longrightarrow> b < next_addr s"
    using assms(1) by (simp add: wf_store_def)
  have "ac < next_addr s" "pc < next_addr s" "ih < next_addr s"
    using assms(2-4) by (simp_all add: below)
  from getMatrixToACPC_st_exec [OF assms(2-4) this]
  obtain s' where run: "getMatrixToACPC_st ac pc ih s = Some (next_addr s + 10, s')"
    and res: "heap s' (next_addr s + 10) = Some (Arr4 (getMatrixToACPC a p i))"
    and old: "\<forall>b < next_addr s. heap s' b = heap s b"
    by blast
  have "heap s (next_addr s + 10) = None"
  proof (rule ccontr)
    assume "heap s (next_addr s + 10) \<noteq> None"
    then have "next_addr s + 10 < next_addr s"
      by (rule below)
    then show False
      by simp
  qed
  moreover have "\<forall>b. heap s b \<noteq> None \<longrightarrow> heap s' b = heap s b"
    using old below by blast
  ultimately show ?thesis
    using run res by blast
qed

theorem getMatrixToACPC_st_frame_witness:
  "(let s = \<lparr>heap = [0 \<mapsto> Arr1 (fv (0, 5, 0)), 1 \<mapsto> Arr1 (fv (0, - 5, 0)),
                     2 \<mapsto> Arr1 (fv (0, 0, 10))],
             next_addr = 3\<rparr>
    in wf_store s \<and>
       heap s 0 = Some (Arr1 (fv (0, 5, 0))) \<and>
       heap s 1 = Some (Arr1 (fv (0, - 5, 0))) \<and>
       heap s 2 = Some (Arr1 (fv (0, 0, 10))) \<and>
       (\<exists>m s'. getMatrixToACPC_st 0 1 2 s = Some (m, s') \<and>
          heap s' m =
            Some (Arr4 (getMatrixToACPC (fv (0, 5, 0)) (fv (0, - 5, 0)) (fv (0, 0, 10)))) \<and>
          heap s m = None \<and>
          (\<forall>b. heap s b \<noteq> None \<longrightarrow> heap s' b = heap s b)))"
proof -
  define s where "s = \<lparr>heap = [0 \<mapsto> Arr1 (fv (0, 5, 0)), 1 \<mapsto> Arr1 (fv (0, - 5, 0)),
                     2 \<mapsto> Arr1 (fv (0, 0, 10))],
             next_addr = 3\<rparr>"
  have w: "wf_store s"
    by (simp add: s_def wf_store_def)
  have h0: "heap s 0 = Some (Arr1 (fv (0, 5, 0)))"
    and h1: "heap s 1 = Some (Arr1 (fv (0, - 5, 0)))"
    and h2: "heap s 2 = Some (Arr1 (fv (0, 0, 10)))"
    by (simp_all add: s_def)
  from w h0 h1 h2 getMatrixToACPC_st_frame [OF w h0 h1 h2] show ?thesis
    unfolding Let_def s_def by blast
qed

end
